theory Spec2Isabelle
  imports Main "HOL-Library.Multiset"
begin

section \<open>Python strings\<close>

text \<open>
  A Python \<^verbatim>\<open>str\<close> is a sequence of Unicode code points; \<^verbatim>\<open>len\<close> counts code
  points and \<^verbatim>\<open>strip()\<close> removes the characters for which \<^verbatim>\<open>str.isspace\<close> holds.
  The model keeps code points as natural numbers, so that Arabic text has the length
  Python gives it.
\<close>

type_synonym pystr = "nat list"

definition lit :: "string \<Rightarrow> pystr" where
  "lit s = map of_char s"

text \<open>The code points CPython's \<^verbatim>\<open>str.isspace\<close> accepts.\<close>

definition isspace :: "nat \<Rightarrow> bool" where
  "isspace c = (c \<in> set [9, 10, 11, 12, 13, 28, 29, 30, 31, 32, 133, 160, 5760,
      8192, 8193, 8194, 8195, 8196, 8197, 8198, 8199, 8200, 8201, 8202,
      8232, 8233, 8239, 8287, 12288])"

text \<open>\<^verbatim>\<open>s.strip()\<close>: leading and trailing whitespace removed.\<close>

definition strip :: "pystr \<Rightarrow> pystr" where
  "strip s = rev (dropWhile isspace (rev (dropWhile isspace s)))"

text \<open>\<^verbatim>\<open>s.startswith(p)\<close>, by recursion on the prefix.\<close>

fun startswith :: "pystr \<Rightarrow> pystr \<Rightarrow> bool" where
  "startswith s [] = True"
| "startswith [] (p # ps) = False"
| "startswith (c # cs) (p # ps) = (c = p \<and> startswith cs ps)"

text \<open>\<^verbatim>\<open>sub in s\<close>.\<close>

fun contains :: "pystr \<Rightarrow> pystr \<Rightarrow> bool" where
  "contains [] sub = (sub = [])"
| "contains (c # cs) sub = (startswith (c # cs) sub \<or> contains cs sub)"

text \<open>\<^verbatim>\<open>s.find(sub)\<close>: the lowest index where \<^verbatim>\<open>sub\<close> starts, \<^verbatim>\<open>-1\<close> when there is none.\<close>

fun find :: "pystr \<Rightarrow> pystr \<Rightarrow> int" where
  "find [] sub = (if sub = [] then 0 else - 1)"
| "find (c # cs) sub =
     (if startswith (c # cs) sub then 0
      else (let r = find cs sub in if r < 0 then - 1 else r + 1))"

text \<open>\<^verbatim>\<open>s[i:]\<close>: a negative start counts from the end and is clipped at the beginning.\<close>

definition slice_from :: "pystr \<Rightarrow> int \<Rightarrow> pystr" where
  "slice_from s i = (if 0 \<le> i then drop (nat i) s else drop (nat (int (length s) + i)) s)"

text \<open>
  \<^verbatim>\<open>s.replace(old, new)\<close>: the occurrences of \<^verbatim>\<open>old\<close> are found from the left,
  without overlap. With an empty \<^verbatim>\<open>old\<close> Python puts \<^verbatim>\<open>new\<close> before every
  character and at the end.
\<close>

function replace :: "pystr \<Rightarrow> pystr \<Rightarrow> pystr \<Rightarrow> pystr" where
  "replace [] old new = (if old = [] then new else [])"
| "replace (c # cs) old new =
     (if old = [] then new @ concat (map (\<lambda>x. x # new) (c # cs))
      else if startswith (c # cs) old then new @ replace (drop (length old) (c # cs)) old new
      else c # replace cs old new)"
  by pat_completeness auto
termination
  by (relation "measure (\<lambda>(s, old, new). length s)") auto

section \<open>Response extraction\<close>

definition model_marker :: pystr where
  "model_marker = 10 # lit ''model'' @ [10]"

definition alt_marker :: pystr where
  "alt_marker = lit ''model'' @ [10]"

definition end_of_turn :: pystr where
  "end_of_turn = lit ''<end_of_turn>''"

text \<open>\<^verbatim>\<open>extract_model_response\<close> of \<^verbatim>\<open>correction_service.py\<close> (the same body stands in
  \<^verbatim>\<open>extract_model_response.py\<close>).\<close>

definition extract_model_response :: "pystr \<Rightarrow> pystr" where
  "extract_model_response generated_text =
     (if contains generated_text model_marker then
        (let response_start = find generated_text model_marker + int (length model_marker);
             response = strip (slice_from generated_text response_start);
             response = strip (replace response end_of_turn [])
         in response)
      else if contains generated_text alt_marker then
        (let response_start = find generated_text alt_marker + int (length alt_marker);
             response = strip (slice_from generated_text response_start);
             response = strip (replace response end_of_turn [])
         in response)
      else strip generated_text)"

text \<open>
  \<open>after_first m s\<close> scans \<open>s\<close> from the left and yields what follows the first place
  where \<open>m\<close> starts.
\<close>

fun after_first :: "pystr \<Rightarrow> pystr \<Rightarrow> pystr option" where
  "after_first m [] = (if m = [] then Some [] else None)"
| "after_first m (c # cs) =
     (if startswith (c # cs) m then Some (drop (length m) (c # cs)) else after_first m cs)"

text \<open>
  The extraction stated on the two forms of the marker in turn: the text after the first
  occurrence of the newline-led form when that form occurs anywhere in the text, else the
  text after the first occurrence of the bare form when that occurs, every end-of-turn
  marker removed and the result trimmed; the trimmed text when neither occurs.
\<close>

definition extract_by_priority :: "pystr \<Rightarrow> pystr" where
  "extract_by_priority s =
     (case after_first model_marker s of
        Some r \<Rightarrow> strip (replace r end_of_turn [])
      | None \<Rightarrow>
          (case after_first alt_marker s of
             Some r \<Rightarrow> strip (replace r end_of_turn [])
           | None \<Rightarrow> strip s))"

text \<open>
  The extraction as the specification words it, for the forms \<open>markers\<close> a role marker
  may take: locate the first occurrence of a role marker, that is the leftmost place
  where one of the forms starts, and return the text after it with every end-of-turn
  marker removed and the surrounding whitespace trimmed; return the trimmed text when no
  marker is found.
\<close>

fun after_first_of :: "pystr list \<Rightarrow> pystr \<Rightarrow> pystr option" where
  "after_first_of markers [] = (if [] \<in> set markers then Some [] else None)"
| "after_first_of markers (c # cs) =
     (case filter (startswith (c # cs)) markers of
        [] \<Rightarrow> after_first_of markers cs
      | m # _ \<Rightarrow> Some (drop (length m) (c # cs)))"

definition spec_extract :: "pystr list \<Rightarrow> pystr \<Rightarrow> pystr" where
  "spec_extract markers s =
     (case after_first_of markers s of
        Some r \<Rightarrow> strip (replace r end_of_turn [])
      | None \<Rightarrow> strip s)"

section \<open>Exceptions\<close>

text \<open>
  The exception classes the code raises or catches. Every one is a subclass of
  \<^verbatim>\<open>Exception\<close>; only \<open>RuntimeError\<close> is an instance of \<^verbatim>\<open>RuntimeError\<close>.
  \<open>HTTPException\<close> carries its status code.
\<close>

datatype exn =
    RuntimeError
  | ValueError
  | IndexError
  | OSError
  | APIError
  | PlainException
  | HTTPException nat

fun is_RuntimeError :: "exn \<Rightarrow> bool" where
  "is_RuntimeError RuntimeError = True"
| "is_RuntimeError _ = False"

text \<open>\<^verbatim>\<open>try: r  except RuntimeError as e: h(e)\<close> and \<^verbatim>\<open>try: r  except Exception as e: h(e)\<close>.\<close>

definition except_RuntimeError :: "exn + 'a \<Rightarrow> (exn \<Rightarrow> exn + 'a) \<Rightarrow> exn + 'a" where
  "except_RuntimeError r h =
     (case r of Inl e \<Rightarrow> (if is_RuntimeError e then h e else Inl e) | Inr v \<Rightarrow> Inr v)"

definition except_Exception :: "exn + 'a \<Rightarrow> (exn \<Rightarrow> exn + 'a) \<Rightarrow> exn + 'a" where
  "except_Exception r h = (case r of Inl e \<Rightarrow> h e | Inr v \<Rightarrow> Inr v)"

section \<open>Tokenizer and generation pipelines\<close>

record auto_tokenizer =
  pad_token_id :: "nat option"
  eos_token_id :: "nat option"

text \<open>The chat template \<^verbatim>\<open>initialize_model\<close> installs, applied with \<^verbatim>\<open>tokenize=False\<close>.\<close>

definition apply_chat_template :: "(pystr \<times> pystr) list \<Rightarrow> bool \<Rightarrow> pystr" where
  "apply_chat_template messages add_generation_prompt =
     concat (map (\<lambda>(role, content).
        lit ''<start_of_turn>'' @ role @ [10] @ content @ lit ''<end_of_turn>'' @ [10]) messages)
     @ (if add_generation_prompt then lit ''<start_of_turn>model'' @ [10] else [])"

record gen_kwargs =
  max_new_tokens :: nat
  do_sample :: bool
  pad_token_id_arg :: "nat option"
  eos_token_id_arg :: "nat option"
  return_full_text :: bool

record gen_output =
  generated_text :: pystr

text \<open>
  A text-generation pipeline is an external collaborator: called on a prompt with its
  keyword arguments it raises or returns the list of generated sequences.
\<close>

type_synonym pipeline = "pystr \<Rightarrow> gen_kwargs \<Rightarrow> exn + gen_output list"

text \<open>\<^verbatim>\<open>outputs[0]["generated_text"]\<close>: an empty list raises \<^verbatim>\<open>IndexError\<close>.\<close>

definition first_generated_text :: "gen_output list \<Rightarrow> exn + pystr" where
  "first_generated_text outputs =
     (case outputs of [] \<Rightarrow> Inl IndexError | out # _ \<Rightarrow> Inr (generated_text out))"

text \<open>
  The three lines both attempts share: call the pipeline, read the first generated
  text, extract the model's response.
\<close>

definition attempt :: "pipeline \<Rightarrow> pystr \<Rightarrow> gen_kwargs \<Rightarrow> exn + pystr" where
  "attempt pl prompt kw =
     (case pl prompt kw of
        Inl e \<Rightarrow> Inl e
      | Inr outputs \<Rightarrow>
          (case first_generated_text outputs of
             Inl e \<Rightarrow> Inl e
           | Inr full_text \<Rightarrow> Inr (extract_model_response full_text)))"

section \<open>The correction service\<close>

record correction_service =
  tokenizer :: "auto_tokenizer option"
  pipe :: "pipeline option"
  model_loaded :: bool

text \<open>\<^verbatim>\<open>CorrectionService.__init__\<close>\<close>

definition CorrectionService :: correction_service where
  "CorrectionService = \<lparr>tokenizer = None, pipe = None, model_loaded = False\<rparr>"

text \<open>
  \<^verbatim>\<open>initialize_model\<close>: the tokenizer load and the pipeline construction are external and
  may raise; the exception is re-raised, with the attributes assigned so far kept.
\<close>

definition initialize_model ::
  "correction_service \<Rightarrow> exn + auto_tokenizer \<Rightarrow> exn + pipeline
     \<Rightarrow> correction_service \<times> (exn + unit)" where
  "initialize_model svc from_pretrained new_pipeline =
     (case from_pretrained of
        Inl e \<Rightarrow> (svc, Inl e)
      | Inr tok \<Rightarrow>
          (let tok' = (if pad_token_id tok = None then tok\<lparr>pad_token_id := eos_token_id tok\<rparr>
                       else tok);
               svc1 = svc\<lparr>tokenizer := Some tok'\<rparr>
           in case new_pipeline of
                Inl e \<Rightarrow> (svc1, Inl e)
              | Inr p \<Rightarrow> (svc1\<lparr>pipe := Some p, model_loaded := True\<rparr>, Inr ())))"

text \<open>The startup hook of \<^verbatim>\<open>app/main.py\<close> logs a failed initialization and goes on.\<close>

definition lifespan_startup ::
  "correction_service \<Rightarrow> exn + auto_tokenizer \<Rightarrow> exn + pipeline \<Rightarrow> correction_service" where
  "lifespan_startup svc from_pretrained new_pipeline =
     fst (initialize_model svc from_pretrained new_pipeline)"

text \<open>
  What the service does to the outside world is kept as a trace: every call of a
  pipeline with its prompt and keyword arguments, and the construction of the CPU
  pipeline.
\<close>

datatype pipe_id = SelfPipe | CpuPipe

datatype event = Generate pipe_id pystr gen_kwargs | BuildCpuPipeline

definition gpu_kwargs :: "auto_tokenizer \<Rightarrow> gen_kwargs" where
  "gpu_kwargs tok = \<lparr>max_new_tokens = 64, do_sample = False,
     pad_token_id_arg = pad_token_id tok, eos_token_id_arg = eos_token_id tok,
     return_full_text = True\<rparr>"

definition cpu_kwargs :: gen_kwargs where
  "cpu_kwargs = \<lparr>max_new_tokens = 100, do_sample = False,
     pad_token_id_arg = None, eos_token_id_arg = None, return_full_text = True\<rparr>"

text \<open>
  The inner \<^verbatim>\<open>try\<close> of \<^verbatim>\<open>correct_arabic_text\<close>. \<open>Inr (Some r)\<close> is its \<^verbatim>\<open>return r\<close>,
  \<open>Inr None\<close> is control falling through to the CPU fallback, \<open>Inl e\<close> an exception that
  leaves the block.
\<close>

definition gpu_attempt :: "pipeline \<Rightarrow> auto_tokenizer \<Rightarrow> pystr \<Rightarrow> pystr \<Rightarrow> exn + pystr option" where
  "gpu_attempt p tok prompt text =
     except_RuntimeError
       (case attempt p prompt (gpu_kwargs tok) of
          Inl e \<Rightarrow> Inl e
        | Inr result \<Rightarrow>
            (if strip result \<noteq> [] \<and> strip result \<noteq> strip text then Inr (Some (strip result))
             else Inr None))
       (\<lambda>gpu_error. Inr None)"

text \<open>The fallback: build a CPU pipeline, generate with it, return the result or the text.\<close>

definition cpu_fallback :: "exn + pipeline \<Rightarrow> pystr \<Rightarrow> pystr \<Rightarrow> event list \<times> (exn + pystr)" where
  "cpu_fallback cpu_factory prompt text =
     (case cpu_factory of
        Inl e \<Rightarrow> ([BuildCpuPipeline], Inl e)
      | Inr cpu_pipe \<Rightarrow>
          ([BuildCpuPipeline, Generate CpuPipe prompt cpu_kwargs],
           (case attempt cpu_pipe prompt cpu_kwargs of
              Inl e \<Rightarrow> Inl e
            | Inr result \<Rightarrow> Inr (if strip result \<noteq> [] then strip result else text))))"

text \<open>
  \<^verbatim>\<open>correct_arabic_text\<close>. \<open>cpu_factory\<close> is what the \<^verbatim>\<open>pipeline(..., device="cpu")\<close> call
  yields. The outer handler catches \<^verbatim>\<open>RuntimeError\<close> and returns the text.
\<close>

definition correct_arabic_text ::
  "correction_service \<Rightarrow> exn + pipeline \<Rightarrow> pystr \<Rightarrow> event list \<times> (exn + pystr)" where
  "correct_arabic_text svc cpu_factory text =
     (if model_loaded svc then
        (case pipe svc of
           None \<Rightarrow> ([], Inl ValueError)
         | Some p \<Rightarrow>
             (case tokenizer svc of
                None \<Rightarrow> ([], Inl ValueError)
              | Some tok \<Rightarrow>
                  (let prompt = apply_chat_template [(lit ''user'', text)] True;
                       gpu_call = Generate SelfPipe prompt (gpu_kwargs tok);
                       (events, outcome) =
                         (case gpu_attempt p tok prompt text of
                            Inl e \<Rightarrow> ([gpu_call], Inl e)
                          | Inr (Some r) \<Rightarrow> ([gpu_call], Inr r)
                          | Inr None \<Rightarrow>
                              (let (cpu_events, r) = cpu_fallback cpu_factory prompt text
                               in (gpu_call # cpu_events, r)))
                   in (events, except_RuntimeError outcome (\<lambda>e. Inr text)))))
      else ([], Inl ValueError))"

section \<open>Schemas\<close>

record CorrectionCreate =
  original_text :: pystr
  corrected_text :: pystr

text \<open>\<^verbatim>\<open>CorrectionInDB\<close>: the fields \<^verbatim>\<open>id\<close> and \<^verbatim>\<open>created_at\<close> beside the two texts; a
  creation time is an instant on a linear time line.\<close>

record CorrectionInDB = CorrectionCreate +
  row_id :: int
  created_at :: nat

record TextCorrectionResponse = CorrectionCreate +
  response_id :: "int option"
  timestamp :: nat

record HealthResponse =
  status :: string
  health_timestamp :: nat
  health_model_loaded :: bool

datatype validation_error = string_too_short | string_too_long | value_error

text \<open>The field validator \<^verbatim>\<open>validate_text\<close>.\<close>

definition validate_text :: "pystr \<Rightarrow> validation_error + pystr" where
  "validate_text v = (if v = [] \<or> strip v = [] then Inl value_error else Inr (strip v))"

text \<open>
  Building a \<^verbatim>\<open>TextCorrectionRequest\<close> from a submitted text: the field constraints
  \<^verbatim>\<open>min_length=1\<close> and \<^verbatim>\<open>max_length=5000\<close>, then the validator. The result is the
  \<^verbatim>\<open>text\<close> field of the request.
\<close>

definition TextCorrectionRequest :: "pystr \<Rightarrow> validation_error + pystr" where
  "TextCorrectionRequest v =
     (if length v < 1 then Inl string_too_short
      else if 5000 < length v then Inl string_too_long
      else validate_text v)"

section \<open>The table store and the database service\<close>

text \<open>
  Modelled from the spec: the hosted table store behind \<^verbatim>\<open>supabase.table(...)\<close> is an
  external service and not part of the sources. It holds one table of correction
  records, assigns the identifier on insert, lists ordered by creation time descending
  and deletes by identifier, returning the rows it inserted or deleted. A store that
  cannot be reached raises on every request.
\<close>

record table_store =
  rows :: "CorrectionInDB list"
  next_id :: int
  reachable :: bool

definition store_insert ::
  "table_store \<Rightarrow> pystr \<Rightarrow> pystr \<Rightarrow> nat \<Rightarrow> table_store \<times> (exn + CorrectionInDB list)" where
  "store_insert st orig corr created =
     (if reachable st then
        (let row = \<lparr>original_text = orig, corrected_text = corr,
                    row_id = next_id st, created_at = created\<rparr>
         in (st\<lparr>rows := rows st @ [row], next_id := next_id st + 1\<rparr>, Inr [row]))
      else (st, Inl APIError))"

definition store_select_order_desc :: "table_store \<Rightarrow> exn + CorrectionInDB list" where
  "store_select_order_desc st =
     (if reachable st then Inr (rev (sort_key created_at (rows st))) else Inl APIError)"

definition store_delete_eq ::
  "table_store \<Rightarrow> int \<Rightarrow> table_store \<times> (exn + CorrectionInDB list)" where
  "store_delete_eq st i =
     (if reachable st then
        (st\<lparr>rows := filter (\<lambda>r. row_id r \<noteq> i) (rows st)\<rparr>,
         Inr (filter (\<lambda>r. row_id r = i) (rows st)))
      else (st, Inl APIError))"

text \<open>\<^verbatim>\<open>DatabaseService.create_correction\<close>; \<open>now\<close> is the clock reading.\<close>

definition create_correction ::
  "table_store \<Rightarrow> nat \<Rightarrow> CorrectionCreate \<Rightarrow> table_store \<times> (exn + CorrectionInDB)" where
  "create_correction st now correction =
     (let (st', result) =
            store_insert st (original_text correction) (corrected_text correction) now
      in (st', except_Exception
                 (case result of
                    Inl e \<Rightarrow> Inl e
                  | Inr data \<Rightarrow>
                      (case data of [] \<Rightarrow> Inl PlainException | row # _ \<Rightarrow> Inr row))
                 (\<lambda>e. Inl e)))"

text \<open>\<^verbatim>\<open>DatabaseService.get_all_corrections\<close>\<close>

definition get_all_corrections :: "table_store \<Rightarrow> exn + CorrectionInDB list" where
  "get_all_corrections st =
     except_Exception
       (case store_select_order_desc st of
          Inl e \<Rightarrow> Inl e
        | Inr data \<Rightarrow> Inr (map (\<lambda>correction. correction) data))
       (\<lambda>e. Inl e)"

text \<open>
  \<^verbatim>\<open>DatabaseService.delete_correction\<close>. \<open>delete_correction_on\<close> is the body of the
  method on whatever the store's delete request did, raise or return the deleted rows.
\<close>

definition delete_correction_on :: "exn + CorrectionInDB list \<Rightarrow> exn + bool" where
  "delete_correction_on result =
     except_Exception
       (case result of Inl e \<Rightarrow> Inl e | Inr data \<Rightarrow> Inr (0 < length data))
       (\<lambda>e. Inr False)"

definition delete_correction :: "table_store \<Rightarrow> int \<Rightarrow> table_store \<times> (exn + bool)" where
  "delete_correction st i =
     (let (st', result) = store_delete_eq st i in (st', delete_correction_on result))"

section \<open>The JSON API\<close>

text \<open>
  The framework answers a handler that returns with the declared status code, an
  \<^verbatim>\<open>HTTPException\<close> with the code it carries, and any other exception with 500.
\<close>

definition http_status :: "nat \<Rightarrow> exn + 'a \<Rightarrow> nat" where
  "http_status declared r =
     (case r of
        Inr _ \<Rightarrow> declared
      | Inl (HTTPException code) \<Rightarrow> code
      | Inl _ \<Rightarrow> 500)"

text \<open>\<^verbatim>\<open>x is not None\<close>\<close>

definition is_not_None :: "'a option \<Rightarrow> bool" where
  "is_not_None x = (x \<noteq> None)"

text \<open>
  \<^verbatim>\<open>health_check\<close>. The attribute \<^verbatim>\<open>model_loaded\<close> holds a bool, \<^verbatim>\<open>False\<close> from
  \<^verbatim>\<open>__init__\<close> on; it is a value, never \<^verbatim>\<open>None\<close>.
\<close>

definition health_check :: "correction_service \<Rightarrow> nat \<Rightarrow> HealthResponse" where
  "health_check svc now =
     \<lparr>status = ''healthy'', health_timestamp = now,
      health_model_loaded = is_not_None (Some (model_loaded svc))\<rparr>"

text \<open>\<^verbatim>\<open>get_all_text\<close>\<close>

definition get_all_text :: "table_store \<Rightarrow> exn + CorrectionInDB list" where
  "get_all_text st = get_all_corrections st"

text \<open>\<^verbatim>\<open>correct_text\<close> of \<^verbatim>\<open>app/api/routes.py\<close>, on the text of a validated request.\<close>

definition correct_text ::
  "correction_service \<Rightarrow> exn + pipeline \<Rightarrow> table_store \<Rightarrow> nat \<Rightarrow> pystr
     \<Rightarrow> event list \<times> table_store \<times> (exn + TextCorrectionResponse)" where
  "correct_text svc cpu_factory st now request_text =
     (let (events, st', outcome) =
        (if pipe svc = None \<or> tokenizer svc = None then ([], st, Inl (HTTPException 503))
         else
           (let input_text = request_text;
                (events, r) = correct_arabic_text svc cpu_factory input_text
            in case r of
                 Inl e \<Rightarrow> (events, st, Inl e)
               | Inr corrected \<Rightarrow>
                   (let correction_create =
                          \<lparr>original_text = input_text, corrected_text = corrected\<rparr>;
                        (st', created) = create_correction st now correction_create
                    in case created of
                         Inl e \<Rightarrow> (events, st', Inl e)
                       | Inr correction_in_db \<Rightarrow>
                           (events, st',
                            Inr \<lparr>original_text = input_text, corrected_text = corrected,
                                 response_id = Some (row_id correction_in_db),
                                 timestamp = created_at correction_in_db\<rparr>))))
      in (events, st', except_Exception outcome (\<lambda>e. Inl (HTTPException 500))))"

text \<open>
  \<^verbatim>\<open>POST /gec/correct\<close>: the framework builds the request model from the body and
  answers 422 without calling the handler when that fails.
\<close>

datatype 'a api_result = Rejected validation_error | Handled 'a

definition post_gec_correct ::
  "correction_service \<Rightarrow> exn + pipeline \<Rightarrow> table_store \<Rightarrow> nat \<Rightarrow> pystr
     \<Rightarrow> (event list \<times> table_store \<times> (exn + TextCorrectionResponse)) api_result" where
  "post_gec_correct svc cpu_factory st now body_text =
     (case TextCorrectionRequest body_text of
        Inl err \<Rightarrow> Rejected err
      | Inr text \<Rightarrow> Handled (correct_text svc cpu_factory st now text))"

text \<open>\<^verbatim>\<open>delete_correction\<close> of \<^verbatim>\<open>app/api/routes.py\<close>, declared with status 204.\<close>

definition api_delete_correction :: "table_store \<Rightarrow> int \<Rightarrow> table_store \<times> (exn + unit)" where
  "api_delete_correction st text_id =
     (let (st', r) = delete_correction st text_id
      in (st', except_Exception
                 (case r of
                    Inl e \<Rightarrow> Inl e
                  | Inr success \<Rightarrow> (if success then Inr () else Inl (HTTPException 404)))
                 (\<lambda>e. Inl (HTTPException 500))))"

section \<open>The web pages\<close>

datatype page =
    index_model_not_loaded
  | index_error exn
  | correction_page pystr pystr int

text \<open>\<^verbatim>\<open>correct_text_web\<close>: the form field reaches the handler as submitted.\<close>

definition correct_text_web ::
  "correction_service \<Rightarrow> exn + pipeline \<Rightarrow> table_store \<Rightarrow> nat \<Rightarrow> pystr
     \<Rightarrow> event list \<times> table_store \<times> page" where
  "correct_text_web svc cpu_factory st now text =
     (if model_loaded svc then
        (let (events, r) = correct_arabic_text svc cpu_factory text
         in case r of
              Inl e \<Rightarrow> (events, st, index_error e)
            | Inr corrected \<Rightarrow>
                (let correction_create = \<lparr>original_text = text, corrected_text = corrected\<rparr>;
                     (st', created) = create_correction st now correction_create
                 in case created of
                      Inl e \<Rightarrow> (events, st', index_error e)
                    | Inr correction_in_db \<Rightarrow>
                        (events, st', correction_page text corrected (row_id correction_in_db))))
      else ([], st, index_model_not_loaded))"

text \<open>
  The outcome of the fallback as a whole: the CPU pipeline is built and, when that
  succeeds, called with the fallback's keyword arguments.
\<close>

definition fallback_attempt :: "exn + pipeline \<Rightarrow> pystr \<Rightarrow> exn + pystr" where
  "fallback_attempt cpu_factory prompt =
     (case cpu_factory of
        Inl e \<Rightarrow> Inl e
      | Inr cpu_pipe \<Rightarrow> attempt cpu_pipe prompt cpu_kwargs)"

text \<open>The prompt \<^verbatim>\<open>correct_arabic_text\<close> builds for a text.\<close>

definition user_prompt :: "pystr \<Rightarrow> pystr" where
  "user_prompt text = apply_chat_template [(lit ''user'', text)] True"

section \<open>Sample collaborators\<close>

text \<open>Concrete tokenizers, pipelines, services and stores on which the results below
  are evaluated.\<close>

definition sample_tokenizer :: auto_tokenizer where
  "sample_tokenizer = \<lparr>pad_token_id = Some 0, eos_token_id = Some 1\<rparr>"

text \<open>A pipeline whose every call raises the given exception.\<close>

definition raising_pipeline :: "exn \<Rightarrow> pipeline" where
  "raising_pipeline e prompt kw = Inl e"

text \<open>A pipeline that returns one sequence: the prompt followed by the given answer.\<close>

definition answering_pipeline :: "pystr \<Rightarrow> pipeline" where
  "answering_pipeline answer prompt kw = Inr [\<lparr>generated_text = prompt @ answer\<rparr>]"

definition loaded_service :: "pipeline \<Rightarrow> correction_service" where
  "loaded_service p = \<lparr>tokenizer = Some sample_tokenizer, pipe = Some p, model_loaded = True\<rparr>"

definition empty_store :: table_store where
  "empty_store = \<lparr>rows = [], next_id = 1, reachable = True\<rparr>"

definition unreachable_store :: table_store where
  "unreachable_store = \<lparr>rows = [], next_id = 1, reachable = False\<rparr>"

definition sample_row :: "int \<Rightarrow> nat \<Rightarrow> CorrectionInDB" where
  "sample_row i created = \<lparr>original_text = lit ''abc'', corrected_text = lit ''abd'',
     row_id = i, created_at = created\<rparr>"

definition sample_store :: table_store where
  "sample_store = \<lparr>rows = [sample_row 1 10, sample_row 2 30, sample_row 3 20],
     next_id = 4, reachable = True\<rparr>"

section \<open>Properties of the string operations\<close>

lemma end_of_turn_no_space: "\<forall>c\<in>set end_of_turn. \<not> isspace c"
  by (simp add: end_of_turn_def lit_def isspace_def)

lemma end_of_turn_nonempty: "end_of_turn \<noteq> []"
  by (simp add: end_of_turn_def lit_def)

lemma startswith_length: "startswith s p \<Longrightarrow> length p \<le> length s"
  by (induction s p rule: startswith.induct) auto

lemma startswith_append_ws:
  assumes "\<forall>c\<in>set p. \<not> isspace c" and "\<forall>c\<in>set ws. isspace c"
  shows "startswith (y @ ws) p = startswith y p"
  using assms
proof (induction y p rule: startswith.induct)
  case (1 s)
  then show ?case by simp
next
  case (2 p ps)
  then show ?case by (cases ws) auto
next
  case (3 c cs p ps)
  then show ?case by simp
qed

lemma replace_ws_prefix:
  assumes "p \<noteq> []" and "\<forall>c\<in>set p. \<not> isspace c" and "\<forall>c\<in>set ws. isspace c"
  shows "replace (ws @ y) p new = ws @ replace y p new"
  using assms
proof (induction ws)
  case Nil
  then show ?case by simp
next
  case (Cons w ws)
  then have "\<not> startswith (w # ws @ y) p"
    by (cases p) auto
  with Cons show ?case by simp
qed

lemma replace_ws_suffix:
  assumes "p \<noteq> []" and "\<forall>c\<in>set p. \<not> isspace c" and "\<forall>c\<in>set ws. isspace c"
  shows "replace (y @ ws) p new = replace y p new @ ws"
  using assms
proof (induction y p new rule: replace.induct)
  case (1 old new)
  then show ?case using replace_ws_prefix [of old ws "[]" new] by simp
next
  case (2 c cs old new)
  have sw: "startswith ((c # cs) @ ws) old = startswith (c # cs) old"
    using "2.prems" by (intro startswith_append_ws) auto
  show ?case
  proof (cases "startswith (c # cs) old")
    case True
    then have "length old \<le> length (c # cs)" by (rule startswith_length)
    moreover have "\<And>xs. length old \<le> length xs \<Longrightarrow>
        drop (length old) (xs @ ws) = drop (length old) xs @ ws"
      by simp
    ultimately have "drop (length old) ((c # cs) @ ws) = drop (length old) (c # cs) @ ws"
      by blast
    with True sw 2 show ?thesis by simp
  next
    case False
    with sw 2 show ?thesis by simp
  qed
qed

lemma strip_ws_prefix: "\<forall>c\<in>set ws. isspace c \<Longrightarrow> strip (ws @ z) = strip z"
  by (simp add: strip_def dropWhile_append2)

lemma strip_ws_suffix:
  assumes "\<forall>c\<in>set ws. isspace c"
  shows "strip (z @ ws) = strip z"
proof (cases "\<forall>c\<in>set z. isspace c")
  case True
  then have a: "dropWhile isspace z = []" by simp
  from True assms have b: "dropWhile isspace (z @ ws) = []" by auto
  show ?thesis by (simp only: strip_def a b)
next
  case False
  then have a: "dropWhile isspace (z @ ws) = dropWhile isspace z @ ws"
    by (auto simp: dropWhile_append1)
  from assms have b: "dropWhile isspace (rev ws @ rev (dropWhile isspace z)) =
      dropWhile isspace (rev (dropWhile isspace z))"
    by (intro dropWhile_append2) simp
  show ?thesis by (simp only: strip_def a rev_append b)
qed

lemma strip_decomp:
  "\<exists>ws1 ws2. (\<forall>c\<in>set ws1. isspace c) \<and> (\<forall>c\<in>set ws2. isspace c) \<and> x = ws1 @ strip x @ ws2"
proof -
  let ?d = "dropWhile isspace x"
  have a: "x = takeWhile isspace x @ ?d" by simp
  have "strip x @ rev (takeWhile isspace (rev ?d)) =
      rev (takeWhile isspace (rev ?d) @ dropWhile isspace (rev ?d))"
    by (simp only: strip_def rev_append)
  also have "\<dots> = ?d"
    by (simp only: takeWhile_dropWhile_id rev_rev_ident)
  finally have b: "?d = strip x @ rev (takeWhile isspace (rev ?d))"
    by simp
  have c: "\<forall>c\<in>set (takeWhile isspace x). isspace c"
    by (auto dest: set_takeWhileD)
  have d: "\<forall>c\<in>set (rev (takeWhile isspace (rev ?d))). isspace c"
    by (auto dest: set_takeWhileD)
  from a b have "x = takeWhile isspace x @ strip x @ rev (takeWhile isspace (rev ?d))"
    by simp
  with c d show ?thesis by blast
qed

lemma strip_replace_strip:
  assumes "p \<noteq> []" and "\<forall>c\<in>set p. \<not> isspace c"
  shows "strip (replace (strip x) p new) = strip (replace x p new)"
proof -
  obtain ws1 ws2 where w1: "\<forall>c\<in>set ws1. isspace c" and w2: "\<forall>c\<in>set ws2. isspace c"
    and x: "x = ws1 @ strip x @ ws2"
    using strip_decomp by blast
  have "replace x p new = replace (ws1 @ (strip x @ ws2)) p new"
    using x by simp
  also have "\<dots> = ws1 @ replace (strip x @ ws2) p new"
    using assms w1 by (rule replace_ws_prefix)
  also have "\<dots> = ws1 @ replace (strip x) p new @ ws2"
    using assms w2 by (simp add: replace_ws_suffix)
  finally have "strip (replace x p new) = strip (ws1 @ replace (strip x) p new @ ws2)"
    by simp
  also have "\<dots> = strip (replace (strip x) p new @ ws2)"
    using w1 by (rule strip_ws_prefix)
  also have "\<dots> = strip (replace (strip x) p new)"
    using w2 by (rule strip_ws_suffix)
  finally show ?thesis by simp
qed

lemma startswith_Nil [simp]: "startswith [] m = (m = [])"
  by (cases m) auto

lemma startswith_decomp: "startswith s m \<Longrightarrow> s = m @ drop (length m) s"
  by (induction s m rule: startswith.induct) auto

lemma after_first_None: "after_first m s = None \<longleftrightarrow> \<not> contains s m"
  by (induction s) auto

lemma after_first_find:
  "contains s m \<Longrightarrow>
     0 \<le> find s m \<and> after_first m s = Some (slice_from s (find s m + int (length m)))"
proof (induction s)
  case Nil
  then show ?case by (simp add: slice_from_def)
next
  case (Cons c cs)
  show ?case
  proof (cases "startswith (c # cs) m")
    case True
    then show ?thesis by (simp add: slice_from_def)
  next
    case False
    with Cons.prems have "contains cs m" by simp
    with Cons.IH have r: "0 \<le> find cs m"
      and a: "after_first m cs = Some (slice_from cs (find cs m + int (length m)))"
      by simp_all
    from r have "nat (find cs m + 1 + int (length m)) = Suc (nat (find cs m + int (length m)))"
      by simp
    with r have "slice_from (c # cs) (find cs m + 1 + int (length m)) =
        slice_from cs (find cs m + int (length m))"
      by (simp add: slice_from_def)
    with False r a show ?thesis by (simp add: Let_def)
  qed
qed

lemma after_first_is_first:
  "after_first m s = Some r \<Longrightarrow>
     \<exists>pre. s = pre @ m @ r \<and> (\<forall>k<length pre. \<not> startswith (drop k s) m)"
proof (induction s)
  case Nil
  then show ?case by (simp split: if_splits)
next
  case (Cons c cs)
  show ?case
  proof (cases "startswith (c # cs) m")
    case True
    with Cons.prems have "r = drop (length m) (c # cs)" by simp
    with True have "c # cs = [] @ m @ r" using startswith_decomp by fastforce
    then show ?thesis by (intro exI [of _ "[]"]) simp
  next
    case False
    with Cons.prems have "after_first m cs = Some r" by simp
    with Cons.IH obtain pre where p: "cs = pre @ m @ r"
      and f: "\<forall>k<length pre. \<not> startswith (drop k cs) m" by blast
    have "\<forall>k<length (c # pre). \<not> startswith (drop k (c # cs)) m"
    proof (intro allI impI)
      fix k assume "k < length (c # pre)"
      then show "\<not> startswith (drop k (c # cs)) m"
        using False f by (cases k) auto
    qed
    with p show ?thesis by (intro exI [of _ "c # pre"]) simp
  qed
qed

lemma extract_refines:
  "extract_model_response s = extract_by_priority s"
proof -
  have e: "\<And>x. strip (replace (strip x) end_of_turn []) = strip (replace x end_of_turn [])"
    using end_of_turn_nonempty end_of_turn_no_space by (rule strip_replace_strip)
  show ?thesis
  proof (cases "contains s model_marker")
    case True
    then show ?thesis
      using after_first_find [of s model_marker]
      by (simp add: extract_model_response_def extract_by_priority_def Let_def e)
  next
    case False
    note nm = this
    then have n1: "after_first model_marker s = None" by (simp add: after_first_None)
    show ?thesis
    proof (cases "contains s alt_marker")
      case True
      then show ?thesis
        using after_first_find [of s alt_marker] nm n1
        by (simp add: extract_model_response_def extract_by_priority_def Let_def e)
    next
      case False
      then have "after_first alt_marker s = None" by (simp add: after_first_None)
      with False nm n1 show ?thesis
        by (simp add: extract_model_response_def extract_by_priority_def)
    qed
  qed
qed

section \<open>Response extraction\<close>

text \<open>
  Where both forms of the marker occur, the newline-led form decides, also when the bare
  form stands earlier in the text: on the prompt the service builds, followed by an
  answer that holds a line \<^verbatim>\<open>model\<close>, the text after that line is returned.
\<close>

lemma extract_prefers_newline_marker:
  "extract_model_response (lit ''model'' @ [10] @ lit ''A'' @ [10] @ lit ''model'' @ [10] @ lit ''B'')
     = lit ''B''"
  by (simp add: extract_model_response_def model_marker_def alt_marker_def end_of_turn_def
      lit_def strip_def isspace_def slice_from_def)

lemma extract_on_prompt_prefers_newline_marker:
  "extract_model_response
     (apply_chat_template [(lit ''user'', lit ''abc'')] True
        @ lit ''A'' @ [10] @ lit ''model'' @ [10] @ lit ''B'') = lit ''B''"
  by (simp add: extract_model_response_def apply_chat_template_def model_marker_def
      alt_marker_def end_of_turn_def lit_def strip_def isspace_def slice_from_def)

lemmas eval_extract =
  extract_model_response_def spec_extract_def model_marker_def alt_marker_def end_of_turn_def
  lit_def strip_def isspace_def slice_from_def

lemma after_first_of_single: "after_first_of [m] s = after_first m s"
  by (induction s) auto

lemma after_first_of_no_newline_form:
  "\<not> contains s model_marker \<Longrightarrow>
     after_first_of [model_marker, alt_marker] s = after_first alt_marker s"
  by (induction s) (auto simp: model_marker_def)

lemma extract_agrees_without_newline_form:
  assumes "\<not> contains s model_marker"
  shows "extract_model_response s = spec_extract [model_marker, alt_marker] s"
proof -
  from assms have "after_first model_marker s = None" by (simp add: after_first_None)
  with assms show ?thesis
    using extract_refines [of s]
    by (simp add: extract_by_priority_def spec_extract_def after_first_of_no_newline_form)
qed

text \<open>
  C2, as amended. For every string, \<open>extract_model_response\<close> yields: when the newline-led
  marker \<^verbatim>\<open>\nmodel\n\<close> occurs, the text after its first occurrence; otherwise, when the
  bare marker \<^verbatim>\<open>model\n\<close> occurs, the text after its first occurrence; in both cases
  with every end-of-turn marker removed and the surrounding whitespace trimmed; and the
  trimmed text itself when neither occurs. The code trims before and after removing the
  end-of-turn markers; the first trim changes nothing, since the end-of-turn marker holds
  no whitespace. On the transcript \<^verbatim>\<open>...\nmodel\nHELLO<end_of_turn>\<close> the result is
  \<^verbatim>\<open>HELLO\<close>, and a text without a marker comes back trimmed.
\<close>

theorem extract_model_response_by_priority:
  "extract_model_response s = extract_by_priority s
   \<and> extract_model_response
         (lit ''...'' @ [10] @ lit ''model'' @ [10] @ lit ''HELLO<end_of_turn>'') = lit ''HELLO''
   \<and> (\<not> contains s model_marker \<and> \<not> contains s alt_marker
        \<longrightarrow> extract_model_response s = strip s)"
proof (intro conjI impI)
  show "extract_model_response s = extract_by_priority s" by (rule extract_refines)
next
  show "extract_model_response
         (lit ''...'' @ [10] @ lit ''model'' @ [10] @ lit ''HELLO<end_of_turn>'') = lit ''HELLO''"
    by (simp add: extract_model_response_def model_marker_def alt_marker_def end_of_turn_def
        lit_def strip_def isspace_def slice_from_def)
next
  assume "\<not> contains s model_marker \<and> \<not> contains s alt_marker"
  then show "extract_model_response s = strip s"
    by (simp add: extract_model_response_def)
qed

text \<open>The theorem at \<^verbatim>\<open>" hi "\<close>, a text with no marker.\<close>

theorem extract_model_response_by_priority_witness:
  "\<not> contains (lit '' hi '') model_marker \<and> \<not> contains (lit '' hi '') alt_marker
   \<and> extract_model_response (lit '' hi '') = lit ''hi''"
proof -
  have a: "\<not> contains (lit '' hi '') model_marker \<and> \<not> contains (lit '' hi '') alt_marker"
    by (simp add: model_marker_def alt_marker_def lit_def)
  with extract_model_response_by_priority [of "lit '' hi ''"]
  have "extract_model_response (lit '' hi '') = strip (lit '' hi '')" by blast
  moreover have "strip (lit '' hi '') = lit ''hi''"
    by (simp add: strip_def lit_def isspace_def)
  ultimately show ?thesis using a by simp
qed

text \<open>
  C2 as stated fails, whatever the role marker is taken to be. On
  \<^verbatim>\<open>model\nA\nmodel\nB\<close> the first occurrence of a role marker, in either form or in
  the bare form alone, is at the start and the text after it is \<^verbatim>\<open>A\nmodel\nB\<close>, yet
  the code returns \<^verbatim>\<open>B\<close>. With the newline-led form as the only marker,
  \<^verbatim>\<open>model\nA\<close> holds no marker and should come back as it is, yet the code returns
  \<^verbatim>\<open>A\<close>.
\<close>

theorem extract_model_response_first_marker_counterexample:
  "extract_model_response
      (lit ''model'' @ [10] @ lit ''A'' @ [10] @ lit ''model'' @ [10] @ lit ''B'') = lit ''B''
   \<and> spec_extract [model_marker, alt_marker]
      (lit ''model'' @ [10] @ lit ''A'' @ [10] @ lit ''model'' @ [10] @ lit ''B'')
     = lit ''A'' @ [10] @ lit ''model'' @ [10] @ lit ''B''
   \<and> spec_extract [alt_marker]
      (lit ''model'' @ [10] @ lit ''A'' @ [10] @ lit ''model'' @ [10] @ lit ''B'')
     = lit ''A'' @ [10] @ lit ''model'' @ [10] @ lit ''B''
   \<and> lit ''B'' \<noteq> lit ''A'' @ [10] @ lit ''model'' @ [10] @ lit ''B''
   \<and> extract_model_response (lit ''model'' @ [10] @ lit ''A'') = lit ''A''
   \<and> spec_extract [model_marker] (lit ''model'' @ [10] @ lit ''A'') = lit ''model'' @ [10] @ lit ''A''
   \<and> lit ''A'' \<noteq> lit ''model'' @ [10] @ lit ''A''"
  by (simp add: eval_extract)

section \<open>Generation with fallback\<close>

text \<open>Evaluation rules for the sample pipelines on concrete texts.\<close>

lemmas eval_text =
  attempt_def answering_pipeline_def raising_pipeline_def first_generated_text_def
  user_prompt_def apply_chat_template_def extract_model_response_def model_marker_def
  alt_marker_def end_of_turn_def lit_def strip_def isspace_def slice_from_def
  fallback_attempt_def

lemma cpu_fallback_events:
  "fst (cpu_fallback cpu_factory prompt text) =
     (case cpu_factory of
        Inl e \<Rightarrow> [BuildCpuPipeline]
      | Inr c \<Rightarrow> [BuildCpuPipeline, Generate CpuPipe prompt cpu_kwargs])"
  by (simp add: cpu_fallback_def split: sum.splits)

lemma cpu_fallback_outcome:
  "snd (cpu_fallback cpu_factory prompt text) =
     (case fallback_attempt cpu_factory prompt of
        Inl e \<Rightarrow> Inl e
      | Inr result \<Rightarrow> Inr (if strip result \<noteq> [] then strip result else text))"
  by (simp add: cpu_fallback_def fallback_attempt_def split: sum.splits)

lemma correct_arabic_text_loaded:
  assumes "model_loaded svc" and "pipe svc = Some p" and "tokenizer svc = Some tok"
  shows "correct_arabic_text svc cpu_factory text =
     (case attempt p (user_prompt text) (gpu_kwargs tok) of
        Inl e \<Rightarrow>
          (if is_RuntimeError e then
             (Generate SelfPipe (user_prompt text) (gpu_kwargs tok)
                # fst (cpu_fallback cpu_factory (user_prompt text) text),
              except_RuntimeError (snd (cpu_fallback cpu_factory (user_prompt text) text))
                (\<lambda>e. Inr text))
           else ([Generate SelfPipe (user_prompt text) (gpu_kwargs tok)], Inl e))
      | Inr r \<Rightarrow>
          (if strip r \<noteq> [] \<and> strip r \<noteq> strip text then
             ([Generate SelfPipe (user_prompt text) (gpu_kwargs tok)], Inr (strip r))
           else
             (Generate SelfPipe (user_prompt text) (gpu_kwargs tok)
                # fst (cpu_fallback cpu_factory (user_prompt text) text),
              except_RuntimeError (snd (cpu_fallback cpu_factory (user_prompt text) text))
                (\<lambda>e. Inr text))))"
  using assms
  by (simp add: correct_arabic_text_def gpu_attempt_def except_RuntimeError_def user_prompt_def
      Let_def split: sum.splits prod.splits)

text \<open>
  C3, as amended. With the model loaded, the text of the primary attempt is what
  \<open>correct_arabic_text\<close> returns, after the single call of the service's own pipeline,
  exactly when that text is non-empty and differs from the trimmed input. When the
  primary attempt raises a runtime failure (\<^verbatim>\<open>RuntimeError\<close>) or its text is empty or
  unchanged, the CPU pipeline is built once and, once built, called once, with
  \<open>max_new_tokens\<close> 100 instead of 64 and, like the primary call, without sampling; the
  fallback's text is returned when it is non-empty, and the input as given when the
  fallback's text is empty or the fallback raises a \<^verbatim>\<open>RuntimeError\<close>. A fallback that
  fails with an exception of any other class does not end in the input: that exception
  is raised to the caller.
\<close>

theorem correct_arabic_text_fallback:
  fixes svc :: correction_service and cpu_factory :: "exn + pipeline" and input :: pystr
  defines "prompt \<equiv> user_prompt input"
  defines "events \<equiv> fst (correct_arabic_text svc cpu_factory input)"
  defines "returned \<equiv> snd (correct_arabic_text svc cpu_factory input)"
  assumes loaded: "model_loaded svc" "pipe svc = Some p" "tokenizer svc = Some tok"
  defines "gpu_call \<equiv> Generate SelfPipe prompt (gpu_kwargs tok)"
  defines "primary \<equiv> attempt p prompt (gpu_kwargs tok)"
  defines "fallback \<equiv> fallback_attempt cpu_factory prompt"
  shows
    "((events = [gpu_call] \<and> (\<exists>r. returned = Inr r)) \<longleftrightarrow>
        (\<exists>r. primary = Inr r \<and> strip r \<noteq> [] \<and> strip r \<noteq> strip input))
     \<and> (\<forall>r. primary = Inr r \<and> strip r \<noteq> [] \<and> strip r \<noteq> strip input
            \<longrightarrow> returned = Inr (strip r))
     \<and> ((\<exists>e. primary = Inl e \<and> is_RuntimeError e)
          \<or> (\<exists>r. primary = Inr r \<and> (strip r = [] \<or> strip r = strip input))
        \<longrightarrow>
          events = gpu_call # BuildCpuPipeline #
            (case cpu_factory of Inl e \<Rightarrow> [] | Inr c \<Rightarrow> [Generate CpuPipe prompt cpu_kwargs])
          \<and> max_new_tokens (gpu_kwargs tok) = 64 \<and> max_new_tokens cpu_kwargs = 100
          \<and> \<not> do_sample (gpu_kwargs tok) \<and> \<not> do_sample cpu_kwargs
          \<and> (\<forall>r. fallback = Inr r \<and> strip r \<noteq> [] \<longrightarrow> returned = Inr (strip r))
          \<and> (\<forall>r. fallback = Inr r \<and> strip r = [] \<longrightarrow> returned = Inr input)
          \<and> (\<forall>e. fallback = Inl e \<and> is_RuntimeError e \<longrightarrow> returned = Inr input)
          \<and> (\<forall>e. fallback = Inl e \<and> \<not> is_RuntimeError e \<longrightarrow> returned = Inl e))"
proof -
  note c = correct_arabic_text_loaded [OF loaded, of cpu_factory input]
  show ?thesis
  proof (cases "attempt p (user_prompt input) (gpu_kwargs tok)")
    case (Inl e)
    show ?thesis
    proof (cases "is_RuntimeError e")
      case True
      with Inl c show ?thesis
        unfolding events_def returned_def gpu_call_def primary_def fallback_def prompt_def
        by (auto simp: cpu_fallback_events cpu_fallback_outcome except_RuntimeError_def
            gpu_kwargs_def cpu_kwargs_def split: sum.splits)
    next
      case False
      with Inl c show ?thesis
        unfolding events_def returned_def gpu_call_def primary_def fallback_def prompt_def
        by simp
    qed
  next
    case (Inr r)
    show ?thesis
    proof (cases "strip r \<noteq> [] \<and> strip r \<noteq> strip input")
      case True
      with Inr c show ?thesis
        unfolding events_def returned_def gpu_call_def primary_def fallback_def prompt_def
        by simp
    next
      case False
      with Inr c show ?thesis
        unfolding events_def returned_def gpu_call_def primary_def fallback_def prompt_def
        by (auto simp: cpu_fallback_events cpu_fallback_outcome except_RuntimeError_def
            gpu_kwargs_def cpu_kwargs_def split: sum.splits)
    qed
  qed
qed

text \<open>
  The theorem where the primary pipeline repeats the input \<^verbatim>\<open>abc\<close> and the CPU pipeline
  answers \<^verbatim>\<open>abd\<close>: the fallback runs once and its answer is returned.
\<close>

theorem correct_arabic_text_fallback_witness:
  "model_loaded (loaded_service (answering_pipeline (lit ''abc'')))
   \<and> pipe (loaded_service (answering_pipeline (lit ''abc''))) = Some (answering_pipeline (lit ''abc''))
   \<and> tokenizer (loaded_service (answering_pipeline (lit ''abc''))) = Some sample_tokenizer
   \<and> attempt (answering_pipeline (lit ''abc'')) (user_prompt (lit ''abc''))
         (gpu_kwargs sample_tokenizer) = Inr (lit ''abc'')
   \<and> fallback_attempt (Inr (answering_pipeline (lit ''abd<end_of_turn>''))) (user_prompt (lit ''abc''))
         = Inr (lit ''abd'')
   \<and> correct_arabic_text (loaded_service (answering_pipeline (lit ''abc'')))
         (Inr (answering_pipeline (lit ''abd<end_of_turn>''))) (lit ''abc'')
       = ([Generate SelfPipe (user_prompt (lit ''abc'')) (gpu_kwargs sample_tokenizer),
           BuildCpuPipeline,
           Generate CpuPipe (user_prompt (lit ''abc'')) cpu_kwargs],
          Inr (lit ''abd''))"
proof -
  let ?p = "answering_pipeline (lit ''abc'')"
  let ?svc = "loaded_service ?p"
  let ?cpu = "Inr (answering_pipeline (lit ''abd<end_of_turn>'')) :: exn + pipeline"
  have l: "model_loaded ?svc" "pipe ?svc = Some ?p" "tokenizer ?svc = Some sample_tokenizer"
    by (simp_all add: loaded_service_def)
  have a: "attempt ?p (user_prompt (lit ''abc'')) (gpu_kwargs sample_tokenizer) = Inr (lit ''abc'')"
    by (simp add: eval_text)
  have f: "fallback_attempt ?cpu (user_prompt (lit ''abc'')) = Inr (lit ''abd'')"
    by (simp add: eval_text)
  have s: "strip (lit ''abc'') = lit ''abc''" "strip (lit ''abd'') = lit ''abd''"
    "lit ''abd'' \<noteq> []"
    by (simp_all add: strip_def lit_def isspace_def)
  from correct_arabic_text_fallback [OF l, where cpu_factory = ?cpu and input = "lit ''abc''"] a f s
  have "fst (correct_arabic_text ?svc ?cpu (lit ''abc'')) =
          [Generate SelfPipe (user_prompt (lit ''abc'')) (gpu_kwargs sample_tokenizer),
           BuildCpuPipeline, Generate CpuPipe (user_prompt (lit ''abc'')) cpu_kwargs]
        \<and> snd (correct_arabic_text ?svc ?cpu (lit ''abc'')) = Inr (lit ''abd'')"
    by simp
  then have "correct_arabic_text ?svc ?cpu (lit ''abc'') =
          ([Generate SelfPipe (user_prompt (lit ''abc'')) (gpu_kwargs sample_tokenizer),
           BuildCpuPipeline, Generate CpuPipe (user_prompt (lit ''abc'')) cpu_kwargs],
          Inr (lit ''abd''))"
    by (simp add: prod_eq_iff)
  with l a f show ?thesis by simp
qed

text \<open>
  C3 as stated fails: the primary pipeline repeats the input \<^verbatim>\<open>abc\<close>, so the fallback
  is due; the CPU pipeline is built and its call raises \<^verbatim>\<open>ValueError\<close>. The fallback has
  failed, and \<open>correct_arabic_text\<close> raises that exception instead of returning the input.
\<close>

theorem correct_arabic_text_fallback_raises_counterexample:
  "model_loaded (loaded_service (answering_pipeline (lit ''abc'')))
   \<and> attempt (answering_pipeline (lit ''abc'')) (user_prompt (lit ''abc''))
         (gpu_kwargs sample_tokenizer) = Inr (lit ''abc'')
   \<and> fallback_attempt (Inr (raising_pipeline ValueError)) (user_prompt (lit ''abc''))
       = Inl ValueError
   \<and> correct_arabic_text (loaded_service (answering_pipeline (lit ''abc'')))
         (Inr (raising_pipeline ValueError)) (lit ''abc'')
       = ([Generate SelfPipe (user_prompt (lit ''abc'')) (gpu_kwargs sample_tokenizer),
           BuildCpuPipeline,
           Generate CpuPipe (user_prompt (lit ''abc'')) cpu_kwargs],
          Inl ValueError)
   \<and> Inl ValueError \<noteq> (Inr (lit ''abc'') :: exn + pystr)"
proof -
  let ?p = "answering_pipeline (lit ''abc'')"
  have l: "model_loaded (loaded_service ?p)" "pipe (loaded_service ?p) = Some ?p"
    "tokenizer (loaded_service ?p) = Some sample_tokenizer"
    by (simp_all add: loaded_service_def)
  have a: "attempt ?p (user_prompt (lit ''abc'')) (gpu_kwargs sample_tokenizer) = Inr (lit ''abc'')"
    by (simp add: eval_text)
  have f: "fallback_attempt (Inr (raising_pipeline ValueError)) (user_prompt (lit ''abc''))
      = Inl ValueError"
    by (simp add: fallback_attempt_def attempt_def raising_pipeline_def)
  have c: "cpu_fallback (Inr (raising_pipeline ValueError)) (user_prompt (lit ''abc'')) (lit ''abc'')
      = ([BuildCpuPipeline, Generate CpuPipe (user_prompt (lit ''abc'')) cpu_kwargs],
         Inl ValueError)"
    by (simp add: cpu_fallback_def attempt_def raising_pipeline_def)
  from a c have "correct_arabic_text (loaded_service ?p) (Inr (raising_pipeline ValueError))
      (lit ''abc'')
    = ([Generate SelfPipe (user_prompt (lit ''abc'')) (gpu_kwargs sample_tokenizer),
        BuildCpuPipeline, Generate CpuPipe (user_prompt (lit ''abc'')) cpu_kwargs],
       Inl ValueError)"
    by (simp add: correct_arabic_text_loaded [OF l] except_RuntimeError_def)
  with l a f show ?thesis by simp
qed

text \<open>
  C1, as amended. With the model loaded, \<open>correct_arabic_text\<close> returns a string for
  every input text whenever each failure of the two attempts is a \<^verbatim>\<open>RuntimeError\<close>: a
  \<^verbatim>\<open>RuntimeError\<close> of the fallback, while the CPU pipeline is built or while it
  generates, ends in the input returned as given. The handlers name \<^verbatim>\<open>RuntimeError\<close>
  only, so a failure of any other class in the primary attempt, or in the fallback once
  it is reached, leaves the function as that exception.
\<close>

theorem correct_arabic_text_absorbs_RuntimeError:
  fixes svc :: correction_service and cpu_factory :: "exn + pipeline" and input :: pystr
  defines "prompt \<equiv> user_prompt input"
  defines "returned \<equiv> snd (correct_arabic_text svc cpu_factory input)"
  assumes loaded: "model_loaded svc" "pipe svc = Some p" "tokenizer svc = Some tok"
  defines "primary \<equiv> attempt p prompt (gpu_kwargs tok)"
  defines "fallback \<equiv> fallback_attempt cpu_factory prompt"
  defines "falls_through \<equiv>
     (\<exists>e. primary = Inl e \<and> is_RuntimeError e)
     \<or> (\<exists>r. primary = Inr r \<and> (strip r = [] \<or> strip r = strip input))"
  shows
    "((\<forall>e. primary = Inl e \<longrightarrow> is_RuntimeError e)
        \<and> (\<forall>e. fallback = Inl e \<longrightarrow> is_RuntimeError e)
       \<longrightarrow> (\<exists>r. returned = Inr r))
     \<and> (\<forall>e. falls_through \<and> fallback = Inl e \<and> is_RuntimeError e \<longrightarrow> returned = Inr input)
     \<and> (\<forall>e. primary = Inl e \<and> \<not> is_RuntimeError e \<longrightarrow> returned = Inl e)
     \<and> (\<forall>e. falls_through \<and> fallback = Inl e \<and> \<not> is_RuntimeError e \<longrightarrow> returned = Inl e)"
proof -
  note c = correct_arabic_text_loaded [OF loaded, of cpu_factory input]
  show ?thesis
  proof (cases "attempt p (user_prompt input) (gpu_kwargs tok)")
    case (Inl e)
    with c show ?thesis
      unfolding returned_def primary_def fallback_def prompt_def falls_through_def
      by (cases "fallback_attempt cpu_factory (user_prompt input)")
        (auto simp: cpu_fallback_outcome except_RuntimeError_def)
  next
    case (Inr r)
    with c show ?thesis
      unfolding returned_def primary_def fallback_def prompt_def falls_through_def
      by (cases "fallback_attempt cpu_factory (user_prompt input)")
        (auto simp: cpu_fallback_outcome except_RuntimeError_def)
  qed
qed

text \<open>
  The theorem where both the service's pipeline and the construction of the CPU
  pipeline raise \<^verbatim>\<open>RuntimeError\<close>: the input \<^verbatim>\<open>abc\<close> comes back.
\<close>

theorem correct_arabic_text_absorbs_RuntimeError_witness:
  "model_loaded (loaded_service (raising_pipeline RuntimeError))
   \<and> pipe (loaded_service (raising_pipeline RuntimeError)) = Some (raising_pipeline RuntimeError)
   \<and> tokenizer (loaded_service (raising_pipeline RuntimeError)) = Some sample_tokenizer
   \<and> attempt (raising_pipeline RuntimeError) (user_prompt (lit ''abc''))
         (gpu_kwargs sample_tokenizer) = Inl RuntimeError
   \<and> fallback_attempt (Inl RuntimeError) (user_prompt (lit ''abc'')) = Inl RuntimeError
   \<and> is_RuntimeError RuntimeError
   \<and> snd (correct_arabic_text (loaded_service (raising_pipeline RuntimeError))
         (Inl RuntimeError) (lit ''abc'')) = Inr (lit ''abc'')"
proof -
  let ?p = "raising_pipeline RuntimeError"
  let ?svc = "loaded_service ?p"
  have l: "model_loaded ?svc" "pipe ?svc = Some ?p" "tokenizer ?svc = Some sample_tokenizer"
    by (simp_all add: loaded_service_def)
  have a: "attempt ?p (user_prompt (lit ''abc'')) (gpu_kwargs sample_tokenizer) = Inl RuntimeError"
    by (simp add: attempt_def raising_pipeline_def)
  have f: "fallback_attempt (Inl RuntimeError) (user_prompt (lit ''abc'')) = Inl RuntimeError"
    by (simp add: fallback_attempt_def)
  from correct_arabic_text_absorbs_RuntimeError
    [OF l, where cpu_factory = "Inl RuntimeError" and input = "lit ''abc''"] a f
  have "snd (correct_arabic_text ?svc (Inl RuntimeError) (lit ''abc'')) = Inr (lit ''abc'')"
    by simp
  with l a f show ?thesis by simp
qed

text \<open>
  C1 as stated fails: the model is loaded and the input \<^verbatim>\<open>abc\<close> is non-empty and
  short, the service's pipeline raises \<^verbatim>\<open>RuntimeError\<close>, and building the CPU
  pipeline raises \<^verbatim>\<open>OSError\<close>, which \<open>correct_arabic_text\<close> raises to its caller.
\<close>

theorem correct_arabic_text_raises_counterexample:
  "model_loaded (loaded_service (raising_pipeline RuntimeError))
   \<and> lit ''abc'' \<noteq> [] \<and> length (lit ''abc'') \<le> 5000
   \<and> correct_arabic_text (loaded_service (raising_pipeline RuntimeError)) (Inl OSError) (lit ''abc'')
       = ([Generate SelfPipe (user_prompt (lit ''abc'')) (gpu_kwargs sample_tokenizer),
           BuildCpuPipeline], Inl OSError)"
  by (simp add: correct_arabic_text_def loaded_service_def gpu_attempt_def attempt_def
      raising_pipeline_def except_RuntimeError_def cpu_fallback_def user_prompt_def lit_def)

section \<open>The database service\<close>

text \<open>
  C10. \<open>delete_correction\<close> of the database service always returns a boolean: whatever
  the store's delete request does, raise any exception or return rows, the method
  returns and raises nothing. A store failure gives \<open>False\<close>, the very value an empty
  list of deleted rows gives, so the caller cannot tell a store error from an
  identifier that is not there.
\<close>

theorem delete_correction_total:
  "(\<exists>b. delete_correction_on result = Inr b)
   \<and> delete_correction_on (Inl e) = Inr False
   \<and> delete_correction_on (Inr []) = Inr False
   \<and> (\<exists>b. snd (delete_correction st i) = Inr b)"
  by (auto simp: delete_correction_on_def delete_correction_def except_Exception_def
      split: sum.splits prod.splits)

lemma delete_correction_store:
  "snd (delete_correction st i) = Inr (reachable st \<and> i \<in> row_id ` set (rows st))"
  by (auto simp: delete_correction_on_def delete_correction_def except_Exception_def
      store_delete_eq_def filter_empty_conv)

lemma api_delete_correction_outcome:
  "snd (api_delete_correction st text_id) =
     (if reachable st \<and> text_id \<in> row_id ` set (rows st) then Inr ()
      else Inl (HTTPException 500))"
proof (cases "delete_correction st text_id")
  case (Pair st' r)
  with delete_correction_store [of st text_id] show ?thesis
    by (auto simp: api_delete_correction_def except_Exception_def)
qed

lemma create_correction_store:
  "create_correction st now c =
     (if reachable st then
        (st\<lparr>rows := rows st @ [\<lparr>original_text = original_text c,
                                  corrected_text = corrected_text c,
                                  row_id = next_id st, created_at = now\<rparr>],
            next_id := next_id st + 1\<rparr>,
         Inr \<lparr>original_text = original_text c, corrected_text = corrected_text c,
              row_id = next_id st, created_at = now\<rparr>)
      else (st, Inl APIError))"
  by (simp add: create_correction_def store_insert_def except_Exception_def Let_def)

lemma correct_text_unfold:
  "correct_text svc cpu_factory st now t =
     (if pipe svc = None \<or> tokenizer svc = None then ([], st, Inl (HTTPException 500))
      else
        (case correct_arabic_text svc cpu_factory t of
           (events, Inl e) \<Rightarrow> (events, st, Inl (HTTPException 500))
         | (events, Inr corrected) \<Rightarrow>
             (if reachable st then
                (events,
                 st\<lparr>rows := rows st @ [\<lparr>original_text = t, corrected_text = corrected,
                                          row_id = next_id st, created_at = now\<rparr>],
                    next_id := next_id st + 1\<rparr>,
                 Inr \<lparr>original_text = t, corrected_text = corrected,
                      response_id = Some (next_id st), timestamp = now\<rparr>)
              else (events, st, Inl (HTTPException 500)))))"
  by (simp add: correct_text_def except_Exception_def create_correction_store Let_def
      split: prod.splits sum.splits)

lemma desc_adjacent:
  fixes xs :: "nat list"
  assumes "sorted (rev xs)" and "Suc i < length xs"
  shows "xs ! Suc i \<le> xs ! i"
  using sorted_rev_nth_mono [OF assms(1), of i "Suc i"] assms(2) by simp

text \<open>
  C8. The list operation returns its records newest first. When the store can be
  reached the operation returns; what it returns holds exactly the stored records, and
  of every two adjacent records the earlier one was created no earlier than the later
  one. The order is the store's, asked for by \<^verbatim>\<open>order("created_at", desc=True)\<close>; the
  service and the handler hand the rows on in the order received.
\<close>

theorem get_all_text_newest_first:
  "(reachable st \<longrightarrow> (\<exists>rs. get_all_text st = Inr rs))
   \<and> (\<forall>rs. get_all_text st = Inr rs \<longrightarrow>
         mset rs = mset (rows st)
         \<and> (\<forall>i. Suc i < length rs \<longrightarrow> created_at (rs ! Suc i) \<le> created_at (rs ! i)))"
proof (intro conjI allI impI)
  assume "reachable st"
  then show "\<exists>rs. get_all_text st = Inr rs"
    by (simp add: get_all_text_def get_all_corrections_def store_select_order_desc_def
        except_Exception_def)
next
  fix rs assume "get_all_text st = Inr rs"
  then have rs: "rs = rev (sort_key created_at (rows st))"
    by (auto simp: get_all_text_def get_all_corrections_def store_select_order_desc_def
        except_Exception_def split: if_splits)
  then show "mset rs = mset (rows st)" by simp
  fix i assume i: "Suc i < length rs"
  from rs have "sorted (rev (map created_at rs))"
    by (simp add: rev_map [symmetric])
  with i have "map created_at rs ! Suc i \<le> map created_at rs ! i"
    by (intro desc_adjacent) simp_all
  with i show "created_at (rs ! Suc i) \<le> created_at (rs ! i)" by simp
qed

text \<open>The theorem on a store of three records created at 10, 30 and 20.\<close>

theorem get_all_text_newest_first_witness:
  "reachable sample_store
   \<and> get_all_text sample_store = Inr [sample_row 2 30, sample_row 3 20, sample_row 1 10]
   \<and> mset [sample_row 2 30, sample_row 3 20, sample_row 1 10] = mset (rows sample_store)
   \<and> created_at (sample_row 2 30) \<ge> created_at (sample_row 3 20)
   \<and> created_at (sample_row 3 20) \<ge> created_at (sample_row 1 10)"
proof -
  have r: "reachable sample_store" by (simp add: sample_store_def)
  have g: "get_all_text sample_store = Inr [sample_row 2 30, sample_row 3 20, sample_row 1 10]"
    by (simp add: get_all_text_def get_all_corrections_def store_select_order_desc_def
        except_Exception_def sample_store_def sample_row_def)
  from get_all_text_newest_first [of sample_store] g
  have m: "mset [sample_row 2 30, sample_row 3 20, sample_row 1 10] = mset (rows sample_store)"
    and n: "\<forall>i. Suc i < length [sample_row 2 30, sample_row 3 20, sample_row 1 10] \<longrightarrow>
      created_at ([sample_row 2 30, sample_row 3 20, sample_row 1 10] ! Suc i)
        \<le> created_at ([sample_row 2 30, sample_row 3 20, sample_row 1 10] ! i)"
    by blast+
  from n [rule_format, of 0] n [rule_format, of 1]
  have "created_at (sample_row 2 30) \<ge> created_at (sample_row 3 20)"
    "created_at (sample_row 3 20) \<ge> created_at (sample_row 1 10)"
    by simp_all
  with r g m show ?thesis by simp
qed

section \<open>The handlers of the JSON API\<close>

lemma correct_text_unloaded:
  "pipe svc = None \<or> tokenizer svc = None \<Longrightarrow>
     correct_text svc cpu_factory st now request_text = ([], st, Inl (HTTPException 500))"
  by (simp add: correct_text_def except_Exception_def)

lemma correct_text_outcome:
  "(\<exists>resp. snd (snd (correct_text svc cpu_factory st now request_text)) = Inr resp)
   \<or> snd (snd (correct_text svc cpu_factory st now request_text)) = Inl (HTTPException 500)"
  by (simp add: correct_text_def except_Exception_def Let_def split: prod.splits sum.splits)

text \<open>
  C4. What the code does: the handler of \<^verbatim>\<open>POST /gec/correct\<close> raises its 503 inside
  the \<^verbatim>\<open>try\<close> whose \<^verbatim>\<open>except Exception\<close> turns every exception into a 500, so the
  response status is never 503. On a service that has not loaded its model (no pipeline)
  the status is 500.
\<close>

theorem correct_text_never_503:
  "http_status 200 (snd (snd (correct_text svc cpu_factory st now request_text))) \<noteq> 503
   \<and> pipe CorrectionService = None
   \<and> http_status 200 (snd (snd (correct_text CorrectionService cpu_factory st now request_text)))
       = 500"
proof -
  have "http_status 200 (snd (snd (correct_text svc cpu_factory st now request_text))) \<noteq> 503"
    using correct_text_outcome [of svc cpu_factory st now request_text]
    by (auto simp: http_status_def)
  moreover have "pipe CorrectionService = None" by (simp add: CorrectionService_def)
  ultimately show ?thesis
    using correct_text_unloaded [of CorrectionService cpu_factory st now request_text]
    by (simp add: http_status_def)
qed

text \<open>
  C5. What the code does: \<open>health_check\<close> tests the boolean attribute against \<^verbatim>\<open>None\<close>,
  so the \<open>model_loaded\<close> field of the health response is true in every state, also for
  the freshly constructed service whose model is not loaded.
\<close>

theorem health_check_always_loaded:
  "health_model_loaded (health_check svc now)
   \<and> \<not> model_loaded CorrectionService
   \<and> health_model_loaded (health_check CorrectionService now)"
  by (simp add: health_check_def is_not_None_def CorrectionService_def)

text \<open>
  C6. What the code does: the handler of \<^verbatim>\<open>DELETE /gec/delete/{id}\<close> raises its 404
  inside the \<^verbatim>\<open>try\<close> whose \<^verbatim>\<open>except Exception\<close> turns every exception into a 500, so
  the response status is never 404. Deleting identifier 1 from a store without records
  answers 500.
\<close>

theorem api_delete_correction_never_404:
  "http_status 204 (snd (api_delete_correction st text_id)) \<noteq> 404
   \<and> http_status 204 (snd (api_delete_correction empty_store 1)) = 500"
  by (simp add: api_delete_correction_outcome http_status_def empty_store_def)

text \<open>An identifier that is stored is deleted and answered with 204.\<close>

lemma api_delete_correction_existing:
  assumes "reachable st" and "text_id \<in> row_id ` set (rows st)"
  shows "http_status 204 (snd (api_delete_correction st text_id)) = 204
    \<and> text_id \<notin> row_id ` set (rows (fst (api_delete_correction st text_id)))"
proof
  from assms show "http_status 204 (snd (api_delete_correction st text_id)) = 204"
    by (simp add: api_delete_correction_outcome http_status_def)
next
  from assms show "text_id \<notin> row_id ` set (rows (fst (api_delete_correction st text_id)))"
    by (auto simp: api_delete_correction_def delete_correction_def store_delete_eq_def)
qed

lemma TextCorrectionRequest_rejects:
  "v = [] \<or> strip v = [] \<or> 5000 < length v \<Longrightarrow> \<exists>err. TextCorrectionRequest v = Inl err"
  by (auto simp: TextCorrectionRequest_def validate_text_def)

lemma TextCorrectionRequest_accepts:
  "TextCorrectionRequest v = Inr t \<Longrightarrow>
     t = strip v \<and> strip v \<noteq> [] \<and> v \<noteq> [] \<and> length v \<le> 5000"
  by (auto simp: TextCorrectionRequest_def validate_text_def split: if_splits)

lemma post_gec_correct_rejects:
  "v = [] \<or> strip v = [] \<or> 5000 < length v \<Longrightarrow>
     \<exists>err. post_gec_correct svc cpu_factory st now v = Rejected err"
  using TextCorrectionRequest_rejects [of v] by (auto simp: post_gec_correct_def)

text \<open>
  C9. The request model trims the text it accepts. For every accepted body the request
  text is the stripped body, the handler runs on the stripped body, and whenever the
  handler answers with a response, inference was called on the stripped body, the
  response echoes the stripped body as its original text, and the record handed to the
  database service and stored holds the stripped body as well.
\<close>

theorem correct_text_uses_stripped_text:
  assumes "TextCorrectionRequest body_text = Inr request_text"
  shows "request_text = strip body_text
    \<and> post_gec_correct svc cpu_factory st now body_text
        = Handled (correct_text svc cpu_factory st now (strip body_text))
    \<and> (\<forall>events st' response.
          correct_text svc cpu_factory st now (strip body_text) = (events, st', Inr response)
          \<longrightarrow> correct_arabic_text svc cpu_factory (strip body_text)
                = (events, Inr (corrected_text response))
              \<and> original_text response = strip body_text
              \<and> (\<exists>row. create_correction st now
                          \<lparr>original_text = strip body_text,
                           corrected_text = corrected_text response\<rparr> = (st', Inr row)
                        \<and> rows st' = rows st @ [row]
                        \<and> original_text row = strip body_text
                        \<and> response_id response = Some (row_id row)))"
proof (intro conjI allI impI)
  from assms show t: "request_text = strip body_text"
    by (simp add: TextCorrectionRequest_accepts)
  with assms show "post_gec_correct svc cpu_factory st now body_text
      = Handled (correct_text svc cpu_factory st now (strip body_text))"
    by (simp add: post_gec_correct_def)
next
  fix events st' response
  assume h: "correct_text svc cpu_factory st now (strip body_text) = (events, st', Inr response)"
  obtain evs r where c: "correct_arabic_text svc cpu_factory (strip body_text) = (evs, r)"
    by (cases "correct_arabic_text svc cpu_factory (strip body_text)")
  from h c obtain corrected where r: "r = Inr corrected" and re: "reachable st"
    by (cases r) (auto simp: correct_text_unfold split: if_splits)
  from h c r re have resp: "response = \<lparr>original_text = strip body_text,
      corrected_text = corrected, response_id = Some (next_id st), timestamp = now\<rparr>"
    and ev: "events = evs"
    and st': "st' = st\<lparr>rows := rows st @ [\<lparr>original_text = strip body_text,
           corrected_text = corrected, row_id = next_id st, created_at = now\<rparr>],
         next_id := next_id st + 1\<rparr>"
    by (auto simp: correct_text_unfold split: if_splits)
  from c r ev resp show "correct_arabic_text svc cpu_factory (strip body_text)
      = (events, Inr (corrected_text response))"
    by simp
  from resp show "original_text response = strip body_text" by simp
  from resp st' re show "\<exists>row. create_correction st now
        \<lparr>original_text = strip body_text, corrected_text = corrected_text response\<rparr>
          = (st', Inr row)
      \<and> rows st' = rows st @ [row]
      \<and> original_text row = strip body_text
      \<and> response_id response = Some (row_id row)"
    by (simp add: create_correction_store)
qed

text \<open>
  The theorem on the body \<^verbatim>\<open>" abc  "\<close>, with a pipeline that answers \<^verbatim>\<open>abd\<close> and an
  empty store.
\<close>

theorem correct_text_uses_stripped_text_witness:
  "TextCorrectionRequest (lit '' abc  '') = Inr (lit ''abc'')
   \<and> strip (lit '' abc  '') = lit ''abc''
   \<and> post_gec_correct (loaded_service (answering_pipeline (lit ''abd''))) (Inl OSError)
        empty_store 5 (lit '' abc  '')
      = Handled
         ([Generate SelfPipe (user_prompt (lit ''abc'')) (gpu_kwargs sample_tokenizer)],
          \<lparr>rows = [\<lparr>original_text = lit ''abc'', corrected_text = lit ''abd'',
                     row_id = 1, created_at = 5\<rparr>],
           next_id = 2, reachable = True\<rparr>,
          Inr \<lparr>original_text = lit ''abc'', corrected_text = lit ''abd'',
               response_id = Some 1, timestamp = 5\<rparr>)
   \<and> correct_arabic_text (loaded_service (answering_pipeline (lit ''abd''))) (Inl OSError)
        (lit ''abc'')
      = ([Generate SelfPipe (user_prompt (lit ''abc'')) (gpu_kwargs sample_tokenizer)],
         Inr (lit ''abd''))"
proof -
  let ?svc = "loaded_service (answering_pipeline (lit ''abd''))"
  let ?cpu = "Inl OSError :: exn + pipeline"
  let ?ev = "[Generate SelfPipe (user_prompt (lit ''abc'')) (gpu_kwargs sample_tokenizer)]"
  let ?st = "\<lparr>rows = [\<lparr>original_text = lit ''abc'', corrected_text = lit ''abd'',
                     row_id = 1, created_at = 5\<rparr>],
           next_id = 2, reachable = True\<rparr>"
  let ?resp = "\<lparr>original_text = lit ''abc'', corrected_text = lit ''abd'',
               response_id = Some 1, timestamp = 5\<rparr>"
  have s: "strip (lit '' abc  '') = lit ''abc''" "strip (lit ''abd'') = lit ''abd''"
    "strip (lit ''abc'') = lit ''abc''" "lit ''abd'' \<noteq> lit ''abc''" "lit ''abd'' \<noteq> []"
    by (simp_all add: strip_def lit_def isspace_def)
  have v: "TextCorrectionRequest (lit '' abc  '') = Inr (lit ''abc'')"
    using s by (simp add: TextCorrectionRequest_def validate_text_def) (simp add: lit_def)
  have l: "model_loaded ?svc" "pipe ?svc = Some (answering_pipeline (lit ''abd''))"
    "tokenizer ?svc = Some sample_tokenizer"
    by (simp_all add: loaded_service_def)
  have a: "attempt (answering_pipeline (lit ''abd'')) (user_prompt (lit ''abc''))
      (gpu_kwargs sample_tokenizer) = Inr (lit ''abd'')"
    by (simp add: eval_text)
  have h: "correct_text ?svc ?cpu empty_store 5 (strip (lit '' abc  '')) = (?ev, ?st, Inr ?resp)"
    using a s l by (simp add: correct_text_unfold correct_arabic_text_loaded [OF l] empty_store_def)
  from correct_text_uses_stripped_text [OF v, of ?svc ?cpu empty_store 5] h
  have p: "post_gec_correct ?svc ?cpu empty_store 5 (lit '' abc  '')
        = Handled (correct_text ?svc ?cpu empty_store 5 (strip (lit '' abc  '')))"
    and c: "correct_arabic_text ?svc ?cpu (strip (lit '' abc  ''))
        = (?ev, Inr (corrected_text ?resp))"
    by blast+
  from p h c s v show ?thesis by simp
qed

section \<open>The handlers of the web pages\<close>

text \<open>
  C7. What the code does: the web handler passes the form field to inference as
  submitted. The text of one space is whitespace only and the request model of the JSON
  API rejects it, yet \<open>correct_text_web\<close> calls the pipeline on its prompt, stores the
  record and renders the correction page.
\<close>

theorem correct_text_web_unvalidated:
  "isspace 32 \<and> TextCorrectionRequest [32] = Inl value_error
   \<and> correct_text_web (loaded_service (answering_pipeline (lit ''abc''))) (Inl OSError)
        empty_store 0 [32]
      = ([Generate SelfPipe (user_prompt [32]) (gpu_kwargs sample_tokenizer)],
         \<lparr>rows = [\<lparr>original_text = [32], corrected_text = lit ''abc'',
                    row_id = 1, created_at = 0\<rparr>],
          next_id = 2, reachable = True\<rparr>,
         correction_page [32] (lit ''abc'') 1)"
proof -
  have a: "attempt (answering_pipeline (lit ''abc'')) (user_prompt [32])
      (gpu_kwargs sample_tokenizer) = Inr (lit ''abc'')"
    by (simp add: eval_text)
  have s: "strip (lit ''abc'') = lit ''abc''" "strip [32] = []" "lit ''abc'' \<noteq> []"
    by (simp_all add: strip_def lit_def isspace_def)
  have l: "model_loaded (loaded_service (answering_pipeline (lit ''abc'')))"
    "pipe (loaded_service (answering_pipeline (lit ''abc''))) =
       Some (answering_pipeline (lit ''abc''))"
    "tokenizer (loaded_service (answering_pipeline (lit ''abc''))) = Some sample_tokenizer"
    by (simp_all add: loaded_service_def)
  have c: "correct_arabic_text (loaded_service (answering_pipeline (lit ''abc'')))
      (Inl OSError) [32]
    = ([Generate SelfPipe (user_prompt [32]) (gpu_kwargs sample_tokenizer)], Inr (lit ''abc''))"
    using a s by (simp add: correct_arabic_text_loaded [OF l])
  have v: "TextCorrectionRequest [32] = Inl value_error"
    using s by (simp add: TextCorrectionRequest_def validate_text_def)
  have "isspace 32" by (simp add: isspace_def)
  with v c l show ?thesis
    by (simp add: correct_text_web_def create_correction_def store_insert_def empty_store_def
        except_Exception_def Let_def)
qed

end
